theory Spec2Isabelle
  imports Complex_Main "HOL-Library.AList" "HOL-Library.Char_ord" "HOL-Library.List_Lexorder"
begin

section \<open>Data model of \<open>model.py\<close>\<close>

text \<open>
  The class \<open>GarchModel\<close> of \<open>model.py\<close> is embedded as a record of its attributes and
  one HOL function per method. A method takes the object and returns its outcome together
  with the object as the method leaves it, so that an exception (the \<open>Inl\<close> branch) still
  shows which attributes were assigned before it was raised.

  Conventions:
  \<^item> A timestamp of the daily index is a day number (days since 1970-01-01, a Thursday);
    the daily bars are indexed by midnight timestamps.
  \<^item> A floating-point cell is a real number or one of the three special values of IEEE
    arithmetic; rounding is not modelled.
  \<^item> An attribute that \<open>__init__\<close> does not assign is \<open>None\<close> until a method assigns it, and
    reading it while \<open>None\<close> raises \<open>AttributeError\<close>.
\<close>

type_synonym day = int

datatype npfloat = Fin real | PosInf | NegInf | NaN

datatype error =
    AttributeError string
  | IndexError
  | ValueError
  | Exception string
  | OutOfBoundsDatetime
  | FileNotFoundError
  | UnpicklingError
  | FetchError
  | DatabaseError
  | FittingError

text \<open>One stored bar: the index entry and the \<open>close\<close> column (the only column read).\<close>

record row =
  date :: day
  close :: real

text \<open>A frame of forecast variances: one entry per index label, holding that row's cells.\<close>

type_synonym dataframe = "(day \<times> npfloat list) list"

text \<open>The \<open>return\<close> column after \<open>dropna\<close>: index label and value, in index order.\<close>

type_synonym series = "(day \<times> npfloat) list"

text \<open>
  The fitted estimator is opaque: what the class uses of it is \<open>forecast(horizon=h,
  reindex=False).variance\<close> and the attributes \<open>aic\<close> and \<open>bic\<close>.
\<close>

record fitted_model =
  forecast_variance :: "int \<Rightarrow> error + dataframe"
  model_aic :: real
  model_bic :: real

text \<open>A file holds a pickled estimator or bytes that do not unpickle.\<close>

datatype file_content = Pickled fitted_model | Garbage

text \<open>The file system: full path and content of every file, in directory-scan order.\<close>

type_synonym filesystem = "(string \<times> file_content) list"

type_synonym repository = "string \<rightharpoonup> row list"

record GarchModel =
  ticker :: string
  repo :: repository
  use_new_data :: bool
  model_directory :: string
  data :: "series option"
  model :: "fitted_model option"
  aic :: "real option"
  bic :: "real option"

text \<open>\<open>__init__\<close> (lines 40-45) assigns four attributes; \<open>data\<close>, \<open>model\<close>, \<open>aic\<close> and \<open>bic\<close>
  do not exist yet.\<close>

definition GarchModel_init :: "string \<Rightarrow> repository \<Rightarrow> bool \<Rightarrow> string \<Rightarrow> GarchModel" where
  "GarchModel_init tk rp new settings_model_directory =
     \<lparr>ticker = tk, repo = rp, use_new_data = new, model_directory = settings_model_directory,
      data = None, model = None, aic = None, bic = None\<rparr>"

section \<open>Paths and \<open>glob\<close>\<close>

text \<open>\<open>os.path.join(a, b)\<close> on POSIX.\<close>

definition os_path_join :: "string \<Rightarrow> string \<Rightarrow> string" where
  "os_path_join a b =
     (if b \<noteq> [] \<and> hd b = CHR ''/'' then b
      else if a = [] \<or> last a = CHR ''/'' then a @ b
      else a @ ''/'' @ b)"

text \<open>The text that \<open>os.path.join\<close> puts in front of a relative name.\<close>

definition dir_prefix :: "string \<Rightarrow> string" where
  "dir_prefix a = (if a = [] \<or> last a = CHR ''/'' then a else a @ ''/'')"

text \<open>The names of the files directly inside a directory.\<close>

definition listdir :: "string \<Rightarrow> filesystem \<Rightarrow> string list" where
  "listdir a files =
     (let pre = dir_prefix a
      in map (\<lambda>p. drop (length pre) p)
           (filter (\<lambda>p. take (length pre) p = pre \<and> drop (length pre) p \<noteq> []
                         \<and> CHR ''/'' \<notin> set (drop (length pre) p))
              (map fst files)))"

text \<open>
  Shell-style matching as \<open>fnmatch.translate\<close> defines it. In a pattern \<open>*\<close> matches any
  run of characters and \<open>?\<close> one character. \<open>[\<close> opens a bracket expression when a closing
  \<open>]\<close> follows (a \<open>]\<close> right after \<open>[\<close> or \<open>[!\<close> is a member, not the end), and is an
  ordinary character otherwise. Every other character matches itself; nothing quotes a
  metacharacter.
\<close>

text \<open>The text between the brackets and the pattern after the closing bracket, for the
  pattern text that follows a \<open>[\<close>.\<close>

definition bracket_split :: "string \<Rightarrow> (string \<times> string) option" where
  "bracket_split cs =
     (let n1 = (if cs \<noteq> [] \<and> hd cs = CHR ''!'' then 1 else 0);
          n2 = (if drop n1 cs \<noteq> [] \<and> hd (drop n1 cs) = CHR '']'' then n1 + 1 else n1);
          j = n2 + length (takeWhile (\<lambda>c. c \<noteq> CHR '']'') (drop n2 cs))
      in if length cs \<le> j then None else Some (take j cs, drop (Suc j) cs))"

text \<open>
  The text between the brackets is cut at the hyphens that stand for a range. A hyphen is
  looked for from the second character on (the third after a leading \<open>!\<close>) and, after each
  hyphen found, from the third character after it on: \<open>skip\<close> counts the characters that
  are still taken as they come.
\<close>

fun bracket_chunks :: "nat \<Rightarrow> string \<Rightarrow> string \<Rightarrow> string list" where
  "bracket_chunks skip chunk [] = [chunk]"
| "bracket_chunks skip chunk (c # cs) =
     (if skip = 0 \<and> c = CHR ''-'' then chunk # bracket_chunks 2 [] cs
      else bracket_chunks (skip - 1) (chunk @ [c]) cs)"

text \<open>A hyphen at the very end is a member: it is put back on the chunk before it.\<close>

definition close_chunks :: "string list \<Rightarrow> string list" where
  "close_chunks chunks =
     (if chunks \<noteq> [] \<and> last chunks = [] \<and> butlast chunks \<noteq> []
      then butlast (butlast chunks) @ [last (butlast chunks) @ ''-'']
      else chunks)"

text \<open>
  Empty ranges are removed, from the last hyphen to the first: where the character before
  the hyphen is greater than the one after it, both are dropped and the two chunks
  become one.
\<close>

fun drop_empty_ranges :: "string list \<Rightarrow> string list" where
  "drop_empty_ranges [] = []"
| "drop_empty_ranges (a # rest) =
     (case drop_empty_ranges rest of
        [] \<Rightarrow> [a]
      | b # bs \<Rightarrow>
          if a \<noteq> [] \<and> b \<noteq> [] \<and> hd b < last a then (butlast a @ tl b) # bs
          else a # b # bs)"

text \<open>
  The chunks joined by range hyphens are the body of a character class of the regular
  expression (hyphens inside a chunk are escaped there, so only the joining ones make
  ranges). A class is read from the left: a character, a hyphen and a character are a
  range; anything else is a member, a hyphen with no character before it too.
\<close>

datatype class_token = Ch char | Hy

fun join_chunks :: "string list \<Rightarrow> class_token list" where
  "join_chunks [] = []"
| "join_chunks [c] = map Ch c"
| "join_chunks (c # d # cs) = map Ch c @ Hy # join_chunks (d # cs)"

datatype class_item = One char | Range char char

fun class_items :: "class_token list \<Rightarrow> class_item list" where
  "class_items [] = []"
| "class_items (Ch a # Hy # Ch b # ts) = Range a b # class_items ts"
| "class_items (Ch a # ts) = One a # class_items ts"
| "class_items (Hy # ts) = One (CHR ''-'') # class_items ts"

fun in_class_item :: "char \<Rightarrow> class_item \<Rightarrow> bool" where
  "in_class_item x (One a) = (x = a)"
| "in_class_item x (Range a b) = (a \<le> x \<and> x \<le> b)"

text \<open>
  What a pattern is made of. An empty class body never matches, the body \<open>!\<close> alone
  matches any character, a body that starts with \<open>!\<close> is the complement of the rest.
\<close>

datatype glob_token = Star | AnyChar | Lit char | Class bool "class_item list" | Never

definition bracket_token :: "string \<Rightarrow> glob_token" where
  "bracket_token stuff =
     (let first_skip = (if stuff \<noteq> [] \<and> hd stuff = CHR ''!'' then 2 else 1);
          body = join_chunks (drop_empty_ranges (close_chunks (bracket_chunks first_skip [] stuff)))
      in if body = [] then Never
         else if body = [Ch (CHR ''!'')] then AnyChar
         else if hd body = Ch (CHR ''!'') then Class True (class_items (tl body))
         else Class False (class_items body))"

function glob_tokens :: "string \<Rightarrow> glob_token list" where
  "glob_tokens [] = []"
| "glob_tokens (c # cs) =
     (if c = CHR ''*'' then Star # glob_tokens cs
      else if c = CHR ''?'' then AnyChar # glob_tokens cs
      else if c = CHR ''['' then
        (case bracket_split cs of
           None \<Rightarrow> Lit c # glob_tokens cs
         | Some (stuff, rest) \<Rightarrow> bracket_token stuff # glob_tokens rest)
      else Lit c # glob_tokens cs)"
  by pat_completeness auto
termination
  by (relation "measure length") (auto simp: bracket_split_def Let_def split: if_splits)

fun fnmatch_tokens :: "glob_token list \<Rightarrow> string \<Rightarrow> bool" where
  "fnmatch_tokens [] s = (s = [])"
| "fnmatch_tokens (Lit c # ps) s =
     (case s of [] \<Rightarrow> False | x # xs \<Rightarrow> x = c \<and> fnmatch_tokens ps xs)"
| "fnmatch_tokens (AnyChar # ps) s =
     (case s of [] \<Rightarrow> False | x # xs \<Rightarrow> fnmatch_tokens ps xs)"
| "fnmatch_tokens (Class complement items # ps) s =
     (case s of
        [] \<Rightarrow> False
      | x # xs \<Rightarrow> (list_ex (in_class_item x) items \<noteq> complement) \<and> fnmatch_tokens ps xs)"
| "fnmatch_tokens (Never # ps) s = False"
| "fnmatch_tokens (Star # ps) s =
     (fnmatch_tokens ps s \<or> (case s of [] \<Rightarrow> False | x # xs \<Rightarrow> fnmatch_tokens (Star # ps) xs))"

definition fnmatch :: "string \<Rightarrow> string \<Rightarrow> bool" where
  "fnmatch name pat = fnmatch_tokens (glob_tokens pat) name"

text \<open>\<open>glob\<close> skips dot files unless the pattern itself starts with a dot.\<close>

definition ishidden :: "string \<Rightarrow> bool" where
  "ishidden p = (p \<noteq> [] \<and> hd p = CHR ''.'')"

text \<open>
  \<open>glob(os.path.join(a, pat))\<close> for a literal directory \<open>a\<close> and a pattern \<open>pat\<close> without
  a path separator: the joined paths of the matching names, in scan order.
\<close>

definition glob :: "string \<Rightarrow> string \<Rightarrow> filesystem \<Rightarrow> string list" where
  "glob a pat files =
     (let names = listdir a files;
          visible = (if ishidden pat then names else filter (\<lambda>n. \<not> ishidden n) names)
      in map (os_path_join a) (filter (\<lambda>n. fnmatch n pat) visible))"

section \<open>\<open>joblib\<close>\<close>

text \<open>\<open>joblib.dump\<close> writes (or overwrites) one file; \<open>joblib.load\<close> reads one back.
  Pickling is taken to be faithful: what is read is the estimator that was written.\<close>

definition joblib_dump :: "fitted_model \<Rightarrow> string \<Rightarrow> filesystem \<Rightarrow> filesystem" where
  "joblib_dump m path files = AList.update path (Pickled m) files"

definition joblib_load :: "filesystem \<Rightarrow> string \<Rightarrow> error + fitted_model" where
  "joblib_load files path =
     (case map_of files path of
        None \<Rightarrow> Inl FileNotFoundError
      | Some Garbage \<Rightarrow> Inl UnpicklingError
      | Some (Pickled m) \<Rightarrow> Inr m)"

section \<open>\<open>dump\<close> and \<open>load\<close>\<close>

text \<open>\<open>s.replace(":", "-")\<close>\<close>

definition replace_colons :: "string \<Rightarrow> string" where
  "replace_colons s = map (\<lambda>c. if c = CHR '':'' then CHR ''-'' else c) s"

text \<open>
  \<open>dump\<close> (lines 164-183). The argument \<open>now_iso\<close> is what \<open>pd.Timestamp.now().isoformat()\<close>
  returns at the call. The path is built before \<open>self.model\<close> is read.
\<close>

definition dump :: "GarchModel \<Rightarrow> filesystem \<Rightarrow> string \<Rightarrow> (error + string) \<times> GarchModel \<times> filesystem" where
  "dump self files now_iso =
     (let timestamp = replace_colons now_iso;
          filepath = os_path_join (model_directory self) (timestamp @ ''_'' @ ticker self @ ''.pkl'')
      in case model self of
           None \<Rightarrow> (Inl (AttributeError ''model''), self, files)
         | Some m \<Rightarrow> (Inr filepath, self, joblib_dump m filepath files))"

text \<open>\<open>xs[-1]\<close>\<close>

definition py_last :: "'a list \<Rightarrow> error + 'a" where
  "py_last xs = (if xs = [] then Inl IndexError else Inr (last xs))"

text \<open>The message of the exception raised at line 199.\<close>

definition no_model_message :: "string \<Rightarrow> string" where
  "no_model_message tk = ''No model trained for '' @ [CHR 0x27] @ tk @ [CHR 0x27]"

text \<open>
  \<open>load\<close> (lines 185-202). \<open>load_pattern\<close> is the base name of the pattern of line 192.
  \<open>sorted\<close> orders strings by code point, which is the lexicographic order of the
  character lists. Only the \<open>IndexError\<close> of the subscript is caught.
\<close>

definition load_pattern :: "string \<Rightarrow> string" where
  "load_pattern tk = ''*'' @ tk @ ''.pkl''"

definition load :: "GarchModel \<Rightarrow> filesystem \<Rightarrow> (error + unit) \<times> GarchModel" where
  "load self files =
     (case py_last (sort (glob (model_directory self) (load_pattern (ticker self)) files)) of
        Inl e \<Rightarrow> (Inl (Exception (no_model_message (ticker self))), self)
      | Inr model_path \<Rightarrow>
          (case joblib_load files model_path of
             Inl e \<Rightarrow> (Inl e, self)
           | Inr m \<Rightarrow> (Inr (), self\<lparr>model := Some m\<rparr>)))"

section \<open>Floating-point cells\<close>

text \<open>Division of two finite cells: a zero divisor gives an infinity, or \<open>NaN\<close> for \<open>0/0\<close>.\<close>

definition np_div :: "real \<Rightarrow> real \<Rightarrow> npfloat" where
  "np_div x y =
     (if y \<noteq> 0 then Fin (x / y)
      else if 0 < x then PosInf else if x < 0 then NegInf else NaN)"

text \<open>\<open>v - c\<close> and \<open>v * c\<close> for a cell \<open>v\<close> and a finite constant \<open>c\<close>.\<close>

fun np_minus :: "npfloat \<Rightarrow> real \<Rightarrow> npfloat" where
  "np_minus (Fin x) c = Fin (x - c)"
| "np_minus PosInf c = PosInf"
| "np_minus NegInf c = NegInf"
| "np_minus NaN c = NaN"

fun np_times :: "npfloat \<Rightarrow> real \<Rightarrow> npfloat" where
  "np_times (Fin x) c = Fin (x * c)"
| "np_times PosInf c = (if 0 < c then PosInf else if c < 0 then NegInf else NaN)"
| "np_times NegInf c = (if 0 < c then NegInf else if c < 0 then PosInf else NaN)"
| "np_times NaN c = NaN"

text \<open>\<open>v ** 0.5\<close>: the square root of a non-negative cell, \<open>NaN\<close> for a negative one.\<close>

fun np_pow_half :: "npfloat \<Rightarrow> npfloat" where
  "np_pow_half (Fin x) = (if x < 0 then NaN else Fin (sqrt x))"
| "np_pow_half PosInf = PosInf"
| "np_pow_half NegInf = PosInf"
| "np_pow_half NaN = NaN"

section \<open>\<open>wrangle_data\<close> and \<open>fit\<close>\<close>

text \<open>
  Modelled from the spec: \<open>SQLRepository.read_table(table_name, limit)\<close> and
  \<open>insert_table(table_name, records, if_exists="replace")\<close> are not part of \<open>model.py\<close>.
  Reading returns up to \<open>limit\<close> rows, the most recent ones by date, in the order the
  table stores them; inserting replaces the table wholesale.
\<close>

definition most_recent :: "nat \<Rightarrow> row list \<Rightarrow> row list" where
  "most_recent limit tbl =
     (let newest = take limit (rev (sort (map date tbl)))
      in filter (\<lambda>r. date r \<in> set newest) tbl)"

definition read_table :: "repository \<Rightarrow> string \<Rightarrow> nat \<Rightarrow> error + row list" where
  "read_table rp table_name limit =
     (case rp table_name of
        None \<Rightarrow> Inl DatabaseError
      | Some tbl \<Rightarrow> Inr (most_recent limit tbl))"

definition insert_table :: "repository \<Rightarrow> string \<Rightarrow> row list \<Rightarrow> error + repository" where
  "insert_table rp table_name records = Inr (rp(table_name \<mapsto> records))"

text \<open>\<open>Series.pct_change()\<close>: \<open>data / data.shift(1) - 1\<close>; the first entry has no
  predecessor and is \<open>NaN\<close>. The closes are finite numbers, so the forward fill that
  \<open>pct_change\<close> applies to missing entries changes nothing.\<close>

fun pct_change :: "real list \<Rightarrow> npfloat list" where
  "pct_change [] = []"
| "pct_change (x # xs) = NaN # map (\<lambda>(prev, cur). np_minus (np_div cur prev) 1) (zip (x # xs) xs)"

definition dropna :: "series \<Rightarrow> series" where
  "dropna sr = filter (\<lambda>(d, v). v \<noteq> NaN) sr"

text \<open>Lines 79-82: sort by index, add the \<open>return\<close> column, keep its non-missing part.
  The dates of an instrument's bars are unique, so the order after sorting does not depend
  on the sorting algorithm; the model sorts stably.\<close>

definition returns_of :: "row list \<Rightarrow> series" where
  "returns_of df =
     (let sorted_df = sort_key date df;
          return_col = map (\<lambda>v. np_times v 100) (pct_change (map close sorted_df))
      in dropna (zip (map date sorted_df) return_col))"

text \<open>
  Lines 62-72 of \<open>wrangle_data\<close>: the repository after the optional refresh.
  \<open>api_get_daily\<close> stands for \<open>AlphaVantageAPI().get_daily\<close>.
\<close>

definition refresh_repo :: "(string \<Rightarrow> error + row list) \<Rightarrow> GarchModel \<Rightarrow> error + repository" where
  "refresh_repo api_get_daily self =
     (if use_new_data self then
        (case api_get_daily (ticker self) of
           Inl e \<Rightarrow> Inl e
         | Inr new_data \<Rightarrow> insert_table (repo self) (ticker self) new_data)
      else Inr (repo self))"

text \<open>\<open>wrangle_data\<close> (lines 47-82).\<close>

definition wrangle_data ::
  "(string \<Rightarrow> error + row list) \<Rightarrow> GarchModel \<Rightarrow> nat \<Rightarrow> (error + unit) \<times> GarchModel" where
  "wrangle_data api_get_daily self n_observations =
     (case refresh_repo api_get_daily self of
        Inl e \<Rightarrow> (Inl e, self)
      | Inr rp \<Rightarrow>
          (case read_table rp (ticker self) (n_observations + 1) of
             Inl e \<Rightarrow> (Inl e, self\<lparr>repo := rp\<rparr>)
           | Inr df \<Rightarrow> (Inr (), self\<lparr>repo := rp, data := Some (returns_of df)\<rparr>)))"

text \<open>
  \<open>fit\<close> (lines 84-104). \<open>estimate d p q\<close> stands for
  \<open>arch_model(d, p=p, q=q, rescale=False).fit(disp=0)\<close>.
\<close>

definition fit ::
  "(series \<Rightarrow> int \<Rightarrow> int \<Rightarrow> error + fitted_model) \<Rightarrow> GarchModel \<Rightarrow> int \<Rightarrow> int
     \<Rightarrow> (error + unit) \<times> GarchModel" where
  "fit estimate self p q =
     (case data self of
        None \<Rightarrow> (Inl (AttributeError ''data''), self)
      | Some d \<Rightarrow>
          (case estimate d p q of
             Inl e \<Rightarrow> (Inl e, self)
           | Inr m \<Rightarrow>
               (Inr (), self\<lparr>model := Some m, aic := Some (model_aic m), bic := Some (model_bic m)\<rparr>)))"

section \<open>Calendar\<close>

text \<open>Monday is 0; day 0 is Thursday 1970-01-01.\<close>

definition weekday :: "day \<Rightarrow> int" where
  "weekday d = (d + 3) mod 7"

definition is_business_day :: "day \<Rightarrow> bool" where
  "is_business_day d = (weekday d < 5)"

text \<open>The first business day that is not before \<open>d\<close>.\<close>

definition roll_forward :: "day \<Rightarrow> day" where
  "roll_forward d = (if weekday d = 5 then d + 2 else if weekday d = 6 then d + 1 else d)"

text \<open>\<open>pd.bdate_range(start=start, periods=n)\<close>: \<open>n\<close> consecutive business days (Monday to
  Friday, no holidays), the first one not before \<open>start\<close>.\<close>

fun bdate_range :: "day \<Rightarrow> nat \<Rightarrow> day list" where
  "bdate_range start 0 = []"
| "bdate_range start (Suc n) = roll_forward start # bdate_range (roll_forward start + 1) n"

text \<open>A nanosecond-resolution \<open>Timestamp\<close> at midnight exists for these days only
  (1677-09-22 to 2262-04-11).\<close>

definition timestamp_ok :: "day \<Rightarrow> bool" where
  "timestamp_ok d = (- 106751 \<le> d \<and> d \<le> 106751)"

text \<open>The proleptic Gregorian calendar: from the ordinal of a day (1 is 0001-01-01) to year,
  month and day, and back.\<close>

definition is_leap :: "int \<Rightarrow> bool" where
  "is_leap y = (y mod 4 = 0 \<and> (y mod 100 \<noteq> 0 \<or> y mod 400 = 0))"

definition days_before_year :: "int \<Rightarrow> int" where
  "days_before_year y = 365 * (y - 1) + (y - 1) div 4 - (y - 1) div 100 + (y - 1) div 400"

definition days_before_month :: "bool \<Rightarrow> int \<Rightarrow> int" where
  "days_before_month leap m =
     (let l = (if leap then 1 else 0)
      in if m = 1 then 0 else if m = 2 then 31 else if m = 3 then 59 + l
         else if m = 4 then 90 + l else if m = 5 then 120 + l else if m = 6 then 151 + l
         else if m = 7 then 181 + l else if m = 8 then 212 + l else if m = 9 then 243 + l
         else if m = 10 then 273 + l else if m = 11 then 304 + l else 334 + l)"

text \<open>Month and day of the month of the \<open>n\<close>-th day of a year, \<open>n\<close> counted from 0.\<close>

definition month_day :: "bool \<Rightarrow> int \<Rightarrow> int \<times> int" where
  "month_day leap n =
     (let l = (if leap then 1 else 0)
      in if n < 31 then (1, n + 1)
         else if n < 59 + l then (2, n - 30)
         else if n < 90 + l then (3, n - 58 - l)
         else if n < 120 + l then (4, n - 89 - l)
         else if n < 151 + l then (5, n - 119 - l)
         else if n < 181 + l then (6, n - 150 - l)
         else if n < 212 + l then (7, n - 180 - l)
         else if n < 243 + l then (8, n - 211 - l)
         else if n < 273 + l then (9, n - 242 - l)
         else if n < 304 + l then (10, n - 272 - l)
         else if n < 334 + l then (11, n - 303 - l)
         else (12, n - 333 - l))"

definition ord2ymd :: "int \<Rightarrow> int \<times> int \<times> int" where
  "ord2ymd n =
     (let n0 = n - 1;
          n400 = n0 div 146097; r400 = n0 mod 146097;
          n100 = r400 div 36524; r100 = r400 mod 36524;
          n4 = r100 div 1461; r4 = r100 mod 1461;
          n1 = r4 div 365; r1 = r4 mod 365;
          y = 400 * n400 + 100 * n100 + 4 * n4 + n1 + 1
      in if n1 = 4 \<or> n100 = 4 then (y - 1, 12, 31)
         else (case month_day (is_leap y) r1 of (m, d) \<Rightarrow> (y, m, d)))"

definition ymd2ord :: "int \<times> int \<times> int \<Rightarrow> int" where
  "ymd2ord ymd = (case ymd of (y, m, d) \<Rightarrow> days_before_year y + days_before_month (is_leap y) m + d)"

definition civil_of_day :: "day \<Rightarrow> int \<times> int \<times> int" where
  "civil_of_day d = ord2ymd (d + 719163)"

text \<open>\<open>Timestamp.isoformat()\<close> of a midnight timestamp: the calendar date, \<open>T\<close>, and the
  time of day. Years of a \<open>Timestamp\<close> have four digits.\<close>

definition digit :: "int \<Rightarrow> char" where
  "digit n =
     (let k = n mod 10
      in if k = 0 then CHR ''0'' else if k = 1 then CHR ''1'' else if k = 2 then CHR ''2''
         else if k = 3 then CHR ''3'' else if k = 4 then CHR ''4'' else if k = 5 then CHR ''5''
         else if k = 6 then CHR ''6'' else if k = 7 then CHR ''7'' else if k = 8 then CHR ''8''
         else CHR ''9'')"

definition pad2 :: "int \<Rightarrow> string" where
  "pad2 n = [digit (n div 10), digit n]"

definition pad4 :: "int \<Rightarrow> string" where
  "pad4 n = [digit (n div 1000), digit (n div 100), digit (n div 10), digit n]"

definition isoformat :: "day \<Rightarrow> string" where
  "isoformat d =
     (case civil_of_day d of
        (y, m, dd) \<Rightarrow> pad4 y @ ''-'' @ pad2 m @ ''-'' @ pad2 dd @ ''T00:00:00'')"

section \<open>\<open>predict_volatility\<close>\<close>

text \<open>\<open>Series.to_dict()\<close>: a dictionary keeps the position of a key's first insertion and
  the value of its last.\<close>

definition to_dict :: "('k \<times> 'v) list \<Rightarrow> ('k \<times> 'v) list" where
  "to_dict kvs = foldl (\<lambda>d (k, v). AList.update k v d) [] kvs"

text \<open>Elementwise \<open>** 0.5\<close> on a frame.\<close>

definition frame_pow_half :: "dataframe \<Rightarrow> dataframe" where
  "frame_pow_half df = map (\<lambda>(d, cells). (d, map np_pow_half cells)) df"

text \<open>
  \<open>__clean_prediction\<close> (lines 107-138). \<open>prediction.shape[1]\<close> is the number of cells of
  a row; \<open>pd.Series(data, index=...)\<close> raises \<open>ValueError\<close> when the lengths differ.
\<close>

definition clean_prediction :: "dataframe \<Rightarrow> error + (string \<times> npfloat) list" where
  "clean_prediction prediction =
     (case prediction of
        [] \<Rightarrow> Inl IndexError
      | (d0, cells) # _ \<Rightarrow>
          (let start = d0 + 1
           in if \<not> timestamp_ok start then Inl OutOfBoundsDatetime
              else
                (let prediction_dates = bdate_range start (length cells)
                 in if \<not> list_all timestamp_ok prediction_dates then Inl OutOfBoundsDatetime
                    else
                      (let prediction_index = map isoformat prediction_dates;
                           data = map np_pow_half (concat (map snd prediction))
                       in if length data \<noteq> length prediction_index then Inl ValueError
                          else Inr (to_dict (zip prediction_index data))))))"

text \<open>\<open>predict_volatility\<close> (lines 140-162): the variance frame is raised to the power
  0.5 at line 156 and handed to \<open>__clean_prediction\<close>.\<close>

definition predict_volatility :: "GarchModel \<Rightarrow> int \<Rightarrow> error + (string \<times> npfloat) list" where
  "predict_volatility self horizon =
     (case model self of
        None \<Rightarrow> Inl (AttributeError ''model'')
      | Some m \<Rightarrow>
          (case forecast_variance m horizon of
             Inl e \<Rightarrow> Inl e
           | Inr variance \<Rightarrow> clean_prediction (frame_pow_half variance)))"

section \<open>The specification's wording\<close>

text \<open>
  The specification's artifact names for an instrument: the names that end in
  \<open>_<identifier>.pkl\<close>. This definition follows the specification, not \<open>load\<close>.
\<close>

definition spec_artifact_name :: "string \<Rightarrow> string \<Rightarrow> bool" where
  "spec_artifact_name tk name =
     (let suffix = ''_'' @ tk @ ''.pkl''
      in length suffix \<le> length name \<and> drop (length name - length suffix) name = suffix)"

text \<open>
  The specification's candidates of \<open>load\<close> for an instrument: the names in the model
  directory that are artifact names of the instrument.
\<close>

definition spec_candidates :: "string \<Rightarrow> string \<Rightarrow> filesystem \<Rightarrow> string list" where
  "spec_candidates tk a files = filter (spec_artifact_name tk) (listdir a files)"

text \<open>
  The specification's key format, the ISO 8601 calendar date \<open>YYYY-MM-DD\<close>: ten
  characters, digits but for the hyphens after the year and after the month.
\<close>

definition is_digit :: "char \<Rightarrow> bool" where
  "is_digit c = (c \<in> set ''0123456789'')"

definition iso_calendar_date :: "string \<Rightarrow> bool" where
  "iso_calendar_date s =
     (length s = 10 \<and> s ! 4 = CHR ''-'' \<and> s ! 7 = CHR ''-''
      \<and> list_all is_digit (take 4 s @ take 2 (drop 5 s) @ drop 8 s))"

text \<open>The value of a decimal digit (its position among the ten digits), to read a
  formatted number back.\<close>

definition digit_value :: "char \<Rightarrow> int" where
  "digit_value c = int (length (takeWhile (\<lambda>d. d \<noteq> c) ''0123456789''))"

section \<open>Example sessions\<close>

text \<open>An estimator whose variance forecast is the same value at every step, on one row
  labelled with the last day of the series it was fitted to.\<close>

definition constant_forecast :: "day \<Rightarrow> real \<Rightarrow> int \<Rightarrow> error + dataframe" where
  "constant_forecast last_day v h =
     (if h < 1 then Inl ValueError else Inr [(last_day, replicate (nat h) (Fin v))])"

text \<open>Day 19727 is Friday 2024-01-05.\<close>

definition model_a :: fitted_model where
  "model_a = \<lparr>forecast_variance = constant_forecast 19727 16, model_aic = 1, model_bic = 2\<rparr>"

definition model_b :: fitted_model where
  "model_b = \<lparr>forecast_variance = constant_forecast 19727 81, model_aic = 3, model_bic = 4\<rparr>"

definition session_T :: GarchModel where
  "session_T =
     (GarchModel_init ''T'' Map.empty False ''models'')
       \<lparr>model := Some model_a, aic := Some 1, bic := Some 2\<rparr>"

definition session_MSFT :: GarchModel where
  "session_MSFT =
     (GarchModel_init ''MSFT'' Map.empty False ''models'')
       \<lparr>model := Some model_b, aic := Some 3, bic := Some 4\<rparr>"

text \<open>Four stored bars of \<open>T\<close>, newest first (days 19723 to 19726 are Monday 2024-01-01
  to Thursday 2024-01-04), and a session on a repository that holds them.\<close>

definition prices_T :: "row list" where
  "prices_T =
     [\<lparr>date = 19726, close = 102\<rparr>, \<lparr>date = 19725, close = 99\<rparr>,
      \<lparr>date = 19724, close = 101\<rparr>, \<lparr>date = 19723, close = 100\<rparr>]"

definition session_prices :: GarchModel where
  "session_prices = GarchModel_init ''T'' [''T'' \<mapsto> prices_T] False ''models''"

definition api_down :: "string \<Rightarrow> error + row list" where
  "api_down tk = Inl FetchError"

text \<open>The same bars stored oldest first.\<close>

definition session_ascending :: GarchModel where
  "session_ascending = GarchModel_init ''T'' [''T'' \<mapsto> rev prices_T] False ''models''"

definition msft_only :: filesystem where
  "msft_only = [(''models/2024-01-02T10-00-00.000001_MSFT.pkl'', Pickled model_b)]"

text \<open>A model directory with one artifact of \<open>T\<close> and a later one of \<open>MSFT\<close>.\<close>

definition t_and_msft :: filesystem where
  "t_and_msft =
     [(''models/2024-01-02T10-00-00.000001_T.pkl'', Pickled model_a),
      (''models/2024-01-02T11-00-00.000001_MSFT.pkl'', Pickled model_b)]"

definition two_artifacts :: filesystem where
  "two_artifacts =
     [(''models/2024-01-03T09-30-00.500000_T.pkl'', Pickled model_b),
      (''models/2024-01-02T10-00-00.000001_T.pkl'', Pickled model_a),
      (''models/notes.txt'', Garbage)]"

section \<open>Evaluation rules\<close>

lemmas glob_eval = glob_def listdir_def dir_prefix_def fnmatch_def
  ishidden_def os_path_join_def

lemmas calendar_eval = timestamp_ok_def roll_forward_def weekday_def isoformat_def
  civil_of_day_def ord2ymd_def month_day_def is_leap_def pad4_def pad2_def digit_def

lemmas predict_eval = predict_volatility_def clean_prediction_def frame_pow_half_def
  to_dict_def constant_forecast_def

lemma sqrt_4: "sqrt 4 = 2"
  using real_sqrt_abs [of 2] by simp

lemma sqrt_9: "sqrt 9 = 3"
  using real_sqrt_abs [of 3] by simp

lemma sqrt_16: "sqrt 16 = 4"
  using real_sqrt_abs [of 4] by simp

lemma sqrt_81: "sqrt 81 = 9"
  using real_sqrt_abs [of 9] by simp

section \<open>The model archive\<close>

lemma sorted_le_last: "sorted xs \<Longrightarrow> x \<in> set xs \<Longrightarrow> x \<le> last xs"
  by (induction xs) auto

lemma sort_Nil_iff: "(sort xs = []) = (xs = [])"
  by (metis length_sort length_0_conv)

lemma last_sort_greatest:
  fixes xs :: "'a::linorder list"
  assumes "xs \<noteq> []"
  shows "last (sort xs) \<in> set xs \<and> (\<forall>x\<in>set xs. x \<le> last (sort xs))"
proof -
  have "sort xs \<noteq> []" using assms by (simp add: sort_Nil_iff)
  then have "last (sort xs) \<in> set (sort xs)" by (rule last_in_set)
  moreover have "\<forall>x\<in>set (sort xs). x \<le> last (sort xs)"
    using sorted_le_last [OF sorted_sort] by blast
  ultimately show ?thesis by simp
qed

lemma os_path_join_relative:
  "n \<noteq> [] \<Longrightarrow> CHR ''/'' \<notin> set n \<Longrightarrow> os_path_join a n = dir_prefix a @ n"
  by (cases n) (auto simp: os_path_join_def dir_prefix_def)

text \<open>Every path that \<open>glob\<close> returns is the path of a file.\<close>

lemma glob_paths_exist:
  assumes "p \<in> set (glob a pat files)"
  shows "p \<in> fst ` set files"
proof -
  from assms obtain n where n: "n \<in> set (listdir a files)" and p: "p = os_path_join a n"
    by (auto simp: glob_def Let_def split: if_splits)
  from n obtain q where q: "q \<in> fst ` set files" "take (length (dir_prefix a)) q = dir_prefix a"
      "n = drop (length (dir_prefix a)) q" "n \<noteq> []" "CHR ''/'' \<notin> set n"
    by (auto simp: listdir_def Let_def)
  have "p = dir_prefix a @ n" using p q by (simp add: os_path_join_relative)
  also have "\<dots> = q" using q(2,3) by (metis append_take_drop_id)
  finally show ?thesis using q(1) by simp
qed

lemma map_of_present: "p \<in> fst ` set files \<Longrightarrow> \<exists>c. map_of files p = Some c"
  by (metis map_of_eq_None_iff not_Some_eq)

text \<open>A ticker with a bracket expression: the pattern of \<open>load\<close> for the ticker \<open>A[1]\<close>
  matches an artifact of \<open>A1\<close> and not the artifact that \<open>dump\<close> writes for \<open>A[1]\<close>.\<close>

lemma load_pattern_bracket_example:
  "fnmatch ''2024-01-02T10-00-00.000001_A1.pkl'' (load_pattern ''A[1]'')
   \<and> \<not> fnmatch ''2024-01-02T10-00-00.000001_A[1].pkl'' (load_pattern ''A[1]'')"
  by (simp add: fnmatch_def load_pattern_def bracket_split_def bracket_token_def close_chunks_def)

lemma two_artifacts_glob:
  "glob (model_directory session_T) (load_pattern (ticker session_T)) two_artifacts =
     [''models/2024-01-03T09-30-00.500000_T.pkl'', ''models/2024-01-02T10-00-00.000001_T.pkl'']"
  by (simp add: two_artifacts_def session_T_def GarchModel_init_def load_pattern_def glob_eval)

lemma load_two_artifacts:
  "load session_T two_artifacts = (Inr (), session_T\<lparr>model := Some model_b\<rparr>)"
  by (simp add: load_def two_artifacts_glob py_last_def joblib_load_def) (simp add: two_artifacts_def)

text \<open>
  C2 (code defect). The specification's candidates for an instrument are the names ending
  in \<open>_<identifier>.pkl\<close>. The pattern of line 192 has no underscore: with the model
  directory holding one artifact, written by \<open>dump\<close> for \<open>MSFT\<close>, \<open>load\<close> for the
  instrument \<open>T\<close> takes that file as a candidate and makes its estimator the active model,
  although the name does not end in \<open>_T.pkl\<close>.
\<close>

theorem load_takes_other_instrument:
  "\<not> spec_artifact_name ''T'' ''2024-01-02T10-00-00.000001_MSFT.pkl''
   \<and> glob ''models'' (load_pattern ''T'') msft_only = [''models/2024-01-02T10-00-00.000001_MSFT.pkl'']
   \<and> load (GarchModel_init ''T'' Map.empty False ''models'') msft_only
       = (Inr (), (GarchModel_init ''T'' Map.empty False ''models'')\<lparr>model := Some model_b\<rparr>)"
proof -
  have g: "glob ''models'' (load_pattern ''T'') msft_only = [''models/2024-01-02T10-00-00.000001_MSFT.pkl'']"
    by (simp add: msft_only_def load_pattern_def glob_eval)
  have "\<not> spec_artifact_name ''T'' ''2024-01-02T10-00-00.000001_MSFT.pkl''"
    by (simp add: spec_artifact_name_def)
  moreover have "load (GarchModel_init ''T'' Map.empty False ''models'') msft_only
       = (Inr (), (GarchModel_init ''T'' Map.empty False ''models'')\<lparr>model := Some model_b\<rparr>)"
    by (simp add: load_def GarchModel_init_def g py_last_def joblib_load_def) (simp add: msft_only_def)
  ultimately show ?thesis using g by simp
qed

text \<open>
  What \<open>load\<close> does with the files its own pattern matches: when there is one it reads the
  last of the sorted matches, which is a match, is the greatest of them and is a file; the
  estimator pickled there becomes the active model, and a file that does not unpickle
  raises and leaves the object as it was.
\<close>

lemma load_reads_last_sorted_match:
  assumes "glob (model_directory self) (load_pattern (ticker self)) files \<noteq> []"
  shows "\<exists>p c. p = last (sort (glob (model_directory self) (load_pattern (ticker self)) files))
           \<and> p \<in> set (glob (model_directory self) (load_pattern (ticker self)) files)
           \<and> (\<forall>q \<in> set (glob (model_directory self) (load_pattern (ticker self)) files). q \<le> p)
           \<and> map_of files p = Some c
           \<and> load self files =
               (case c of Pickled m \<Rightarrow> (Inr (), self\<lparr>model := Some m\<rparr>)
                        | Garbage \<Rightarrow> (Inl UnpicklingError, self))"
proof -
  let ?g = "glob (model_directory self) (load_pattern (ticker self)) files"
  let ?p = "last (sort ?g)"
  have gr: "?p \<in> set ?g \<and> (\<forall>q\<in>set ?g. q \<le> ?p)"
    using assms by (rule last_sort_greatest)
  then have "?p \<in> fst ` set files" by (blast intro: glob_paths_exist)
  then obtain c where c: "map_of files ?p = Some c"
    by (rule map_of_present [THEN exE])
  have ne: "sort ?g \<noteq> []" using assms by (simp add: sort_Nil_iff)
  have "load self files =
          (case c of Pickled m \<Rightarrow> (Inr (), self\<lparr>model := Some m\<rparr>)
                   | Garbage \<Rightarrow> (Inl UnpicklingError, self))"
    using ne c by (simp add: load_def py_last_def joblib_load_def split: file_content.splits)
  with gr c show ?thesis by blast
qed

text \<open>
  \<open>load\<close> raises the exception of line 199 (a plain \<open>Exception\<close> with the message
  \<open>No model trained for '<ticker>'\<close>) exactly when its own pattern matches no file, and
  whenever it raises, the object is as it was before the call.
\<close>

lemma load_raises_iff_pattern_unmatched:
  "(fst (load self files) = Inl (Exception (''No model trained for '' @ [CHR 0x27] @ ticker self @ [CHR 0x27])))
     = (glob (model_directory self) (load_pattern (ticker self)) files = [])
   \<and> (\<forall>e. fst (load self files) = Inl e \<longrightarrow> snd (load self files) = self)"
  by (auto simp: load_def py_last_def joblib_load_def no_model_message_def sort_Nil_iff
           split: option.splits file_content.splits)

text \<open>
  C5 (code defect). When an artifact of the instrument exists, \<open>load\<close> is to read the
  lexicographically greatest artifact name of that instrument. Here the model directory
  holds one artifact of \<open>T\<close> (with estimator \<open>model_a\<close>) and a later artifact of \<open>MSFT\<close>
  (with \<open>model_b\<close>): the only, hence greatest, artifact name of \<open>T\<close> is the first file, but
  the pattern without underscore matches both, the \<open>MSFT\<close> path sorts last, and \<open>load\<close>
  for \<open>T\<close> makes \<open>model_b\<close> the active model.
\<close>

theorem load_skips_greatest_artifact:
  "sort (spec_candidates ''T'' ''models'' t_and_msft) = [''2024-01-02T10-00-00.000001_T.pkl'']
   \<and> map_of t_and_msft ''models/2024-01-02T10-00-00.000001_T.pkl'' = Some (Pickled model_a)
   \<and> last (sort (glob ''models'' (load_pattern ''T'') t_and_msft))
       = ''models/2024-01-02T11-00-00.000001_MSFT.pkl''
   \<and> load (GarchModel_init ''T'' Map.empty False ''models'') t_and_msft
       = (Inr (), (GarchModel_init ''T'' Map.empty False ''models'')\<lparr>model := Some model_b\<rparr>)
   \<and> model_a \<noteq> model_b"
proof -
  have c: "sort (spec_candidates ''T'' ''models'' t_and_msft) = [''2024-01-02T10-00-00.000001_T.pkl'']"
    by (simp add: spec_candidates_def spec_artifact_name_def listdir_def dir_prefix_def t_and_msft_def)
  have m: "map_of t_and_msft ''models/2024-01-02T10-00-00.000001_T.pkl'' = Some (Pickled model_a)"
    by (simp add: t_and_msft_def)
  have g: "glob ''models'' (load_pattern ''T'') t_and_msft
           = [''models/2024-01-02T10-00-00.000001_T.pkl'', ''models/2024-01-02T11-00-00.000001_MSFT.pkl'']"
    by (simp add: t_and_msft_def load_pattern_def glob_eval)
  have l: "last (sort (glob ''models'' (load_pattern ''T'') t_and_msft))
           = ''models/2024-01-02T11-00-00.000001_MSFT.pkl''"
    by (simp add: g)
  have "load (GarchModel_init ''T'' Map.empty False ''models'') t_and_msft
       = (Inr (), (GarchModel_init ''T'' Map.empty False ''models'')\<lparr>model := Some model_b\<rparr>)"
    by (simp add: load_def GarchModel_init_def g py_last_def joblib_load_def) (simp add: t_and_msft_def)
  moreover have "model_a \<noteq> model_b"
    by (simp add: model_a_def model_b_def)
  ultimately show ?thesis using c m l by simp
qed

text \<open>
  C6 (code defect). \<open>load\<close> is to raise, naming the instrument, exactly when the model
  directory holds no artifact of the instrument, and then to leave the active model as it
  was. Here the directory holds no artifact of \<open>T\<close> (its only file is an artifact of
  \<open>MSFT\<close>), yet \<open>load\<close> for \<open>T\<close> raises nothing: it returns normally and replaces the active
  model \<open>model_a\<close> by the estimator of the \<open>MSFT\<close> file.
\<close>

theorem load_returns_without_artifact:
  "spec_candidates ''T'' ''models'' msft_only = []
   \<and> model session_T = Some model_a
   \<and> load session_T msft_only = (Inr (), session_T\<lparr>model := Some model_b\<rparr>)"
proof -
  have c: "spec_candidates ''T'' ''models'' msft_only = []"
    by (simp add: spec_candidates_def spec_artifact_name_def listdir_def dir_prefix_def msft_only_def)
  have m: "model session_T = Some model_a"
    by (simp add: session_T_def GarchModel_init_def)
  have g: "glob (model_directory session_T) (load_pattern (ticker session_T)) msft_only
           = [''models/2024-01-02T10-00-00.000001_MSFT.pkl'']"
    by (simp add: msft_only_def session_T_def GarchModel_init_def load_pattern_def glob_eval)
  have "load session_T msft_only = (Inr (), session_T\<lparr>model := Some model_b\<rparr>)"
    by (simp add: load_def g py_last_def joblib_load_def) (simp add: msft_only_def)
  with c m show ?thesis by simp
qed

text \<open>
  C9. \<open>__init__\<close> leaves the attribute \<open>model\<close> unset, and on every object whose \<open>model\<close> is
  unset both \<open>dump\<close> and \<open>predict_volatility\<close> raise \<open>AttributeError\<close>: \<open>dump\<close> leaves the
  file system as it was, and \<open>predict_volatility\<close> returns no forecast.
\<close>

theorem unfitted_session_raises:
  "model (GarchModel_init tk rp new dir) = None
   \<and> (\<forall>self. model self = None \<longrightarrow>
        dump self files now_iso = (Inl (AttributeError ''model''), self, files)
        \<and> predict_volatility self horizon = Inl (AttributeError ''model''))"
  by (simp add: GarchModel_init_def dump_def predict_volatility_def Let_def)

theorem unfitted_session_raises_witness:
  "dump (GarchModel_init ''T'' Map.empty False ''models'') two_artifacts ''2024-01-04T08:00:00.250000''
     = (Inl (AttributeError ''model''), GarchModel_init ''T'' Map.empty False ''models'', two_artifacts)
   \<and> predict_volatility (GarchModel_init ''T'' Map.empty False ''models'') 5
     = Inl (AttributeError ''model'')"
  using unfitted_session_raises [of "''T''" Map.empty False "''models''" two_artifacts
      "''2024-01-04T08:00:00.250000''" 5]
  by blast

text \<open>
  C10. A successful \<open>load\<close> assigns \<open>model\<close> and nothing else: \<open>data\<close>, \<open>aic\<close> and \<open>bic\<close> (and
  every other attribute) are as before, so \<open>aic\<close> and \<open>bic\<close> keep the values of the last
  \<open>fit\<close> of the session whatever the loaded estimator's own criteria are.
\<close>

theorem load_frame:
  assumes "load self files = (Inr (), self')"
  shows "self' = self\<lparr>model := model self'\<rparr> \<and> data self' = data self
         \<and> aic self' = aic self \<and> bic self' = bic self"
  using assms
  by (auto simp: load_def py_last_def joblib_load_def
           split: option.splits file_content.splits sum.splits if_splits)

theorem load_frame_witness:
  "load session_T two_artifacts = (Inr (), session_T\<lparr>model := Some model_b\<rparr>)
   \<and> aic (session_T\<lparr>model := Some model_b\<rparr>) = Some 1
   \<and> bic (session_T\<lparr>model := Some model_b\<rparr>) = Some 2
   \<and> model_aic model_b = 3 \<and> model_bic model_b = 4"
proof -
  have "aic session_T = Some 1" "bic session_T = Some 2"
    by (simp_all add: session_T_def GarchModel_init_def)
  moreover have "model_aic model_b = 3" "model_bic model_b = 4"
    by (simp_all add: model_b_def)
  ultimately show ?thesis
    using load_frame [OF load_two_artifacts] load_two_artifacts by simp
qed

section \<open>Returns\<close>

lemma np_times_pct:
  "0 < prev \<Longrightarrow> np_times (np_minus (np_div cur prev) 1) 100 = Fin (100 * (cur / prev - 1))"
  by (simp add: np_div_def)

lemma return_col_positive:
  assumes "\<forall>x\<in>set (x # xs). 0 < x"
  shows "map (\<lambda>v. np_times v 100) (pct_change (x # xs))
         = NaN # map (\<lambda>i. Fin (100 * ((x # xs) ! Suc i / (x # xs) ! i - 1))) [0..<length xs]"
proof -
  have "map (\<lambda>v. np_times v 100) (map (\<lambda>(prev, cur). np_minus (np_div cur prev) 1) (zip (x # xs) xs))
        = map (\<lambda>i. Fin (100 * ((x # xs) ! Suc i / (x # xs) ! i - 1))) [0..<length xs]"
  proof (rule nth_equalityI)
    show "length (map (\<lambda>v. np_times v 100) (map (\<lambda>(prev, cur). np_minus (np_div cur prev) 1) (zip (x # xs) xs)))
          = length (map (\<lambda>i. Fin (100 * ((x # xs) ! Suc i / (x # xs) ! i - 1))) [0..<length xs])"
      by simp
  next
    fix i
    assume "i < length (map (\<lambda>v. np_times v 100) (map (\<lambda>(prev, cur). np_minus (np_div cur prev) 1) (zip (x # xs) xs)))"
    then have i: "i < length xs" by simp
    then have "(x # xs) ! i \<in> set (x # xs)" by (simp del: set_simps nth_Cons_Suc)
    then have pos: "0 < (x # xs) ! i" using assms by blast
    show "map (\<lambda>v. np_times v 100) (map (\<lambda>(prev, cur). np_minus (np_div cur prev) 1) (zip (x # xs) xs)) ! i
          = map (\<lambda>i. Fin (100 * ((x # xs) ! Suc i / (x # xs) ! i - 1))) [0..<length xs] ! i"
      using i pos by (simp add: np_times_pct del: nth_Cons_Suc)
  qed
  then show ?thesis by simp
qed

lemma dropna_first:
  "dropna ((d, NaN) # map (\<lambda>i. (f i, Fin (g i))) is) = map (\<lambda>i. (f i, Fin (g i))) is"
  by (induction "is") (auto simp: dropna_def)

text \<open>With positive closes the series has one value per pair of consecutive bars.\<close>

lemma returns_of_positive:
  assumes "\<forall>r\<in>set df. 0 < close r"
  shows "returns_of df =
           map (\<lambda>i. (date (sort_key date df ! Suc i),
                      Fin (100 * (close (sort_key date df ! Suc i) / close (sort_key date df ! i) - 1))))
             [0..<length df - 1]"
proof (cases "sort_key date df")
  case Nil
  then have "df = []" by (metis length_sort length_0_conv)
  then show ?thesis by (simp add: returns_of_def dropna_def)
next
  case (Cons r rs)
  let ?S = "sort_key date df"
  have len: "length df = Suc (length rs)" using Cons by (metis length_sort length_Cons)
  have pos: "\<forall>x\<in>set (close r # map close rs). 0 < x"
    using assms Cons by (metis (no_types, lifting) imageE list.simps(9) set_map set_sort)
  have col: "map (\<lambda>v. np_times v 100) (pct_change (map close ?S))
        = NaN # map (\<lambda>i. Fin (100 * (map close ?S ! Suc i / map close ?S ! i - 1))) [0..<length rs]"
    using return_col_positive [OF pos] Cons by simp
  have "returns_of df = dropna (zip (map date ?S) (NaN # map (\<lambda>i. Fin (100 * (map close ?S ! Suc i / map close ?S ! i - 1))) [0..<length rs]))"
    unfolding returns_of_def Let_def col ..
  also have "\<dots> = dropna ((date r, NaN) # map (\<lambda>i. (date (?S ! Suc i), Fin (100 * (map close ?S ! Suc i / map close ?S ! i - 1)))) [0..<length rs])"
  proof -
    have "zip (map date rs) (map (\<lambda>i. Fin (100 * (map close ?S ! Suc i / map close ?S ! i - 1))) [0..<length rs])
          = map (\<lambda>i. (date (?S ! Suc i), Fin (100 * (map close ?S ! Suc i / map close ?S ! i - 1)))) [0..<length rs]"
      by (rule nth_equalityI) (simp_all add: Cons)
    then show ?thesis by (simp add: Cons)
  qed
  also have "\<dots> = map (\<lambda>i. (date (?S ! Suc i), Fin (100 * (map close ?S ! Suc i / map close ?S ! i - 1)))) [0..<length rs]"
    by (rule dropna_first)
  also have "\<dots> = map (\<lambda>i. (date (?S ! Suc i), Fin (100 * (close (?S ! Suc i) / close (?S ! i) - 1)))) [0..<length rs]"
  proof (rule map_cong [OF refl])
    fix i
    assume "i \<in> set [0..<length rs]"
    then have "Suc i < length ?S" "i < length ?S" using len by simp_all
    then show "(date (?S ! Suc i), Fin (100 * (map close ?S ! Suc i / map close ?S ! i - 1)))
               = (date (?S ! Suc i), Fin (100 * (close (?S ! Suc i) / close (?S ! i) - 1)))"
      by (simp only: nth_map)
  qed
  finally show ?thesis using len by simp
qed


lemma most_recent_length:
  assumes "distinct (map date tbl)"
  shows "length (most_recent k tbl) = min k (length tbl)"
proof -
  let ?newest = "take k (rev (sort (map date tbl)))"
  have d: "distinct ?newest" using assms by (simp add: distinct_take)
  have sub: "set ?newest \<subseteq> set (map date tbl)"
    using set_take_subset [of k "rev (sort (map date tbl))"] by simp
  have "length (most_recent k tbl) = length (map date (filter (\<lambda>r. date r \<in> set ?newest) tbl))"
    by (simp add: most_recent_def Let_def)
  also have "map date (filter (\<lambda>r. date r \<in> set ?newest) tbl)
             = filter (\<lambda>x. x \<in> set ?newest) (map date tbl)"
    by (simp add: filter_map comp_def)
  also have "length \<dots> = card ({x. x \<in> set ?newest} \<inter> set (map date tbl))"
    using assms by (rule distinct_length_filter)
  also have "{x. x \<in> set ?newest} \<inter> set (map date tbl) = set ?newest"
    using sub by auto
  also have "card (set ?newest) = length ?newest" using d by (rule distinct_card)
  also have "\<dots> = min k (length tbl)" by (simp add: min.commute)
  finally show ?thesis .
qed

lemma most_recent_subset: "set (most_recent k tbl) \<subseteq> set tbl"
  by (auto simp: most_recent_def Let_def)

lemma wrangle_prices:
  "wrangle_data api_down session_prices 3 =
     (Inr (), session_prices\<lparr>repo := [''T'' \<mapsto> prices_T],
        data := Some [(19724, Fin 1), (19725, Fin (- (200 / 101))), (19726, Fin (100 / 33))]\<rparr>)"
  by (simp add: wrangle_data_def refresh_repo_def session_prices_def GarchModel_init_def
        read_table_def most_recent_def prices_T_def returns_of_def dropna_def np_div_def)

lemma wrangle_ascending:
  "wrangle_data api_down session_ascending 3 =
     (Inr (), session_ascending\<lparr>repo := [''T'' \<mapsto> rev prices_T],
        data := Some [(19724, Fin 1), (19725, Fin (- (200 / 101))), (19726, Fin (100 / 33))]\<rparr>)"
  by (simp add: wrangle_data_def refresh_repo_def session_ascending_def GarchModel_init_def
        read_table_def most_recent_def prices_T_def returns_of_def dropna_def np_div_def)

text \<open>
  C3. When the rows \<open>R\<close> that the store returns are in strictly ascending date order, have
  positive closes and are at least two, \<open>wrangle_data\<close> succeeds and attaches a series of
  \<open>|R| - 1\<close> values whose \<open>i\<close>-th value is \<open>100 * (close[i+1] / close[i] - 1)\<close>, labelled with
  the dates of all rows but the first, in strictly ascending order. (Real arithmetic;
  rounding is not modelled.)
\<close>

theorem wrangle_data_returns:
  assumes "refresh_repo api self = Inr rp"
    and "read_table rp (ticker self) (n + 1) = Inr R"
    and "sorted_wrt (<) (map date R)"
    and "\<forall>r\<in>set R. 0 < close r"
    and "2 \<le> length R"
  shows "\<exists>ser. wrangle_data api self n = (Inr (), self\<lparr>repo := rp, data := Some ser\<rparr>)
           \<and> length ser = length R - 1
           \<and> (\<forall>i<length R - 1.
                 ser ! i = (date (R ! (i + 1)), Fin (100 * (close (R ! (i + 1)) / close (R ! i) - 1))))
           \<and> sorted_wrt (<) (map fst ser)
           \<and> map fst ser = map date (tl R)"
proof -
  have "sorted (map date R)"
    using assms(3) by (rule sorted_wrt_mono_rel [rotated]) simp
  then have S: "sort_key date R = R" by (rule sort_key_id_if_sorted)
  let ?ser = "map (\<lambda>i. (date (R ! Suc i), Fin (100 * (close (R ! Suc i) / close (R ! i) - 1))))
                [0..<length R - 1]"
  have r: "returns_of R = ?ser"
    using returns_of_positive [OF assms(4)] by (simp add: S)
  have w: "wrangle_data api self n = (Inr (), self\<lparr>repo := rp, data := Some ?ser\<rparr>)"
    using assms(2) by (simp add: wrangle_data_def assms(1) r)
  have dates: "map fst ?ser = map date (tl R)"
    by (rule nth_equalityI) (simp_all add: nth_tl)
  have "sorted_wrt (<) (map date (tl R))"
    using assms(3) by (cases R) simp_all
  with w dates show ?thesis by (intro exI [of _ ?ser]) simp
qed

theorem wrangle_data_returns_witness:
  "refresh_repo api_down session_ascending = Inr [''T'' \<mapsto> rev prices_T]
   \<and> read_table [''T'' \<mapsto> rev prices_T] (ticker session_ascending) (3 + 1) = Inr (rev prices_T)
   \<and> sorted_wrt (<) (map date (rev prices_T))
   \<and> 2 \<le> length (rev prices_T)
   \<and> (\<exists>ser. wrangle_data api_down session_ascending 3
               = (Inr (), session_ascending\<lparr>repo := [''T'' \<mapsto> rev prices_T], data := Some ser\<rparr>)
             \<and> length ser = 3
             \<and> ser ! 0 = (19724, Fin (100 * (101 / 100 - 1)))
             \<and> map fst ser = [19724, 19725, 19726])"
proof -
  have h1: "refresh_repo api_down session_ascending = Inr [''T'' \<mapsto> rev prices_T]"
    by (simp add: refresh_repo_def session_ascending_def GarchModel_init_def)
  have h2: "read_table [''T'' \<mapsto> rev prices_T] (ticker session_ascending) (3 + 1) = Inr (rev prices_T)"
    by (simp add: read_table_def most_recent_def session_ascending_def GarchModel_init_def prices_T_def)
  have h3: "sorted_wrt (<) (map date (rev prices_T))"
    by (simp add: prices_T_def)
  have h4: "\<forall>r\<in>set (rev prices_T). 0 < close r"
    by (simp add: prices_T_def)
  have h5: "2 \<le> length (rev prices_T)"
    by (simp add: prices_T_def)
  from wrangle_data_returns [OF h1 h2 h3 h4 h5] obtain ser where
    w: "wrangle_data api_down session_ascending 3
          = (Inr (), session_ascending\<lparr>repo := [''T'' \<mapsto> rev prices_T], data := Some ser\<rparr>)"
    and l: "length ser = length (rev prices_T) - 1"
    and v: "\<forall>i<length (rev prices_T) - 1.
              ser ! i = (date (rev prices_T ! (i + 1)),
                         Fin (100 * (close (rev prices_T ! (i + 1)) / close (rev prices_T ! i) - 1)))"
    and d: "map fst ser = map date (tl (rev prices_T))"
    by blast
  have l3: "length ser = 3" using l by (simp add: prices_T_def)
  have "0 < length (rev prices_T) - 1" by (simp add: prices_T_def)
  with v have "ser ! 0 = (date (rev prices_T ! (0 + 1)),
                         Fin (100 * (close (rev prices_T ! (0 + 1)) / close (rev prices_T ! 0) - 1)))"
    by blast
  then have v0: "ser ! 0 = (19724, Fin (100 * (101 / 100 - 1)))"
    by (simp add: prices_T_def)
  have d3: "map fst ser = [19724, 19725, 19726]"
    using d by (simp add: prices_T_def)
  show ?thesis
    by (intro conjI exI [of _ ser]) (fact h1 h2 h3 h5 w l3 v0 d3)+
qed

text \<open>
  C7 (as stated). With four stored bars and three requested observations the series has
  three values, not two: \<open>wrangle_data\<close> reads \<open>n_observations + 1\<close> rows.
\<close>

theorem wrangle_data_length_counterexample:
  "length prices_T = 3 + 1
   \<and> fst (wrangle_data api_down session_prices 3) = Inr ()
   \<and> map_option length (data (snd (wrangle_data api_down session_prices 3))) = Some 3
   \<and> (3::nat) \<noteq> 3 - 1"
  by (simp add: wrangle_prices) (simp add: prices_T_def)

text \<open>
  C7 (amended). When the table of the instrument holds at least \<open>n_observations + 1\<close> bars
  with distinct dates and positive closes, \<open>wrangle_data\<close> succeeds and the series has
  exactly \<open>n_observations\<close> values.
\<close>

theorem wrangle_data_length:
  assumes "refresh_repo api self = Inr rp"
    and "rp (ticker self) = Some tbl"
    and "distinct (map date tbl)"
    and "\<forall>r\<in>set tbl. 0 < close r"
    and "n + 1 \<le> length tbl"
  shows "\<exists>ser. wrangle_data api self n = (Inr (), self\<lparr>repo := rp, data := Some ser\<rparr>)
           \<and> length ser = n"
proof -
  let ?R = "most_recent (n + 1) tbl"
  have rd: "read_table rp (ticker self) (n + 1) = Inr ?R"
    by (simp add: read_table_def assms(2))
  have len: "length ?R = n + 1"
    using most_recent_length [OF assms(3), of "n + 1"] assms(5) by simp
  have pos: "\<forall>r\<in>set ?R. 0 < close r"
    using assms(4) most_recent_subset by blast
  have l: "length (returns_of ?R) = n"
    using returns_of_positive [OF pos] len by simp
  have "wrangle_data api self n = (Inr (), self\<lparr>repo := rp, data := Some (returns_of ?R)\<rparr>)"
    using rd by (simp add: wrangle_data_def assms(1))
  with l show ?thesis by blast
qed

theorem wrangle_data_length_witness:
  "refresh_repo api_down session_prices = Inr [''T'' \<mapsto> prices_T]
   \<and> distinct (map date prices_T)
   \<and> 3 + 1 \<le> length prices_T
   \<and> (\<exists>ser. wrangle_data api_down session_prices 3
               = (Inr (), session_prices\<lparr>repo := [''T'' \<mapsto> prices_T], data := Some ser\<rparr>)
             \<and> length ser = 3)"
proof -
  have h1: "refresh_repo api_down session_prices = Inr [''T'' \<mapsto> prices_T]"
    by (simp add: refresh_repo_def session_prices_def GarchModel_init_def)
  have h2: "[''T'' \<mapsto> prices_T] (ticker session_prices) = Some prices_T"
    by (simp add: session_prices_def GarchModel_init_def)
  have h3: "distinct (map date prices_T)"
    by (simp add: prices_T_def)
  have h4: "\<forall>r\<in>set prices_T. 0 < close r"
    by (simp add: prices_T_def)
  have h5: "3 + 1 \<le> length prices_T"
    by (simp add: prices_T_def)
  from wrangle_data_length [OF h1 h2 h3 h4 h5] obtain ser where
    w: "wrangle_data api_down session_prices 3
          = (Inr (), session_prices\<lparr>repo := [''T'' \<mapsto> prices_T], data := Some ser\<rparr>)"
    and l: "length ser = 3"
    by blast
  show ?thesis
    by (intro conjI exI [of _ ser]) (fact h1 h3 h5 w l)+
qed

section \<open>Forecasts\<close>

lemma predict_model_a:
  "predict_volatility session_T 1 = Inr [(''2024-01-08T00:00:00'', Fin 2)]"
  by (simp add: session_T_def model_a_def GarchModel_init_def predict_eval calendar_eval
        sqrt_16 sqrt_4)

lemma predict_model_b:
  "predict_volatility (session_T\<lparr>model := Some model_b\<rparr>) 1 = Inr [(''2024-01-08T00:00:00'', Fin 3)]"
  by (simp add: session_T_def model_b_def GarchModel_init_def predict_eval calendar_eval
        sqrt_81 sqrt_9)

section \<open>The calendar of the forecast\<close>

lemma div_shift:
  fixes r q k :: int
  assumes "0 \<le> r" "r < k"
  shows "(r + q * k) div k = q"
  using assms by (simp add: div_pos_pos_trivial)

lemma days_before_year_decomp:
  assumes "0 \<le> b" "b \<le> 3" "0 \<le> c" "c \<le> 24" "0 \<le> e" "e \<le> 3"
  shows "days_before_year (400 * a + 100 * b + 4 * c + e + 1)
         = 146097 * a + 36524 * b + 1461 * c + 365 * e"
proof -
  have "(e + (100 * a + 25 * b + c) * 4) div 4 = 100 * a + 25 * b + c"
    using assms by (intro div_shift) simp_all
  then have d4: "(400 * a + 100 * b + 4 * c + e) div 4 = 100 * a + 25 * b + c"
    by (simp add: algebra_simps)
  have "((4 * c + e) + (4 * a + b) * 100) div 100 = 4 * a + b"
    using assms by (intro div_shift) simp_all
  then have d100: "(400 * a + 100 * b + 4 * c + e) div 100 = 4 * a + b"
    by (simp add: algebra_simps)
  have "((100 * b + 4 * c + e) + a * 400) div 400 = a"
    using assms by (intro div_shift) simp_all
  then have d400: "(400 * a + 100 * b + 4 * c + e) div 400 = a"
    by (simp add: algebra_simps)
  show ?thesis
    by (simp add: days_before_year_def d4 d100 d400)
qed

lemma month_day_inverse:
  "month_day l r = (m, d) \<Longrightarrow> days_before_month l m + d = r + 1"
  unfolding month_day_def days_before_month_def Let_def
  by (simp split: if_splits)

lemma month_day_range:
  "0 \<le> r \<Longrightarrow> r < 365 \<Longrightarrow> month_day l r = (m, d) \<Longrightarrow> 1 \<le> m \<and> m \<le> 12 \<and> 1 \<le> d \<and> d \<le> 31"
  unfolding month_day_def Let_def
  by (simp split: if_splits)

lemma mod_shift:
  fixes r q k :: int
  assumes "0 \<le> r" "r < k"
  shows "(r + q * k) mod k = r"
  using assms by (simp add: mod_pos_pos_trivial)

text \<open>The quotients and remainders that \<open>ord2ymd\<close> computes.\<close>

lemma ord2ymd_digits:
  fixes n :: int
  defines "r400 \<equiv> (n - 1) mod 146097"
  defines "r100 \<equiv> r400 mod 36524"
  defines "r4 \<equiv> r100 mod 1461"
  shows "0 \<le> r400 div 36524 \<and> r400 div 36524 \<le> 4
       \<and> 0 \<le> r100 div 1461 \<and> r100 div 1461 \<le> 24
       \<and> 0 \<le> r4 div 365 \<and> r4 div 365 \<le> 4
       \<and> 0 \<le> r4 mod 365 \<and> r4 mod 365 < 365
       \<and> (r400 div 36524 = 4 \<longrightarrow> r100 = 0)
       \<and> (r4 div 365 = 4 \<longrightarrow> r4 mod 365 = 0 \<and> r100 div 1461 \<le> 23)
       \<and> n - 1 = 146097 * ((n - 1) div 146097) + 36524 * (r400 div 36524)
                 + 1461 * (r100 div 1461) + 365 * (r4 div 365) + r4 mod 365"
proof -
  have a: "0 \<le> r400" "r400 < 146097" by (simp_all add: r400_def)
  have b: "0 \<le> r100" "r100 < 36524" by (simp_all add: r100_def)
  have c: "0 \<le> r4" "r4 < 1461" by (simp_all add: r4_def)
  have d: "0 \<le> r4 mod 365" "r4 mod 365 < 365" by simp_all
  have e1: "n - 1 = 146097 * ((n - 1) div 146097) + r400" by (simp add: r400_def)
  have e2: "r400 = 36524 * (r400 div 36524) + r100" by (simp add: r100_def)
  have e3: "r100 = 1461 * (r100 div 1461) + r4" by (simp add: r4_def)
  have e4: "r4 = 365 * (r4 div 365) + r4 mod 365" by simp
  show ?thesis
    using a b c d e1 e2 e3 e4 by (intro conjI impI; linarith)
qed

lemma ymd2ord_ord2ymd: "ymd2ord (ord2ymd n) = n"
proof -
  define a where "a = (n - 1) div 146097"
  define r400 where "r400 = (n - 1) mod 146097"
  define b where "b = r400 div 36524"
  define r100 where "r100 = r400 mod 36524"
  define c where "c = r100 div 1461"
  define r4 where "r4 = r100 mod 1461"
  define e where "e = r4 div 365"
  define r1 where "r1 = r4 mod 365"
  define y where "y = 400 * a + 100 * b + 4 * c + e + 1"
  have o: "ord2ymd n = (if e = 4 \<or> b = 4 then (y - 1, 12, 31)
                        else (case month_day (is_leap y) r1 of (m, d) \<Rightarrow> (y, m, d)))"
    by (simp add: ord2ymd_def Let_def a_def r400_def b_def r100_def c_def r4_def e_def r1_def y_def)
  from ord2ymd_digits [of n]
  have bb: "0 \<le> b" "b \<le> 4" and cb: "0 \<le> c" "c \<le> 24" and eb: "0 \<le> e" "e \<le> 4"
    and rb: "0 \<le> r1" "r1 < 365"
    and b4: "b = 4 \<longrightarrow> r100 = 0"
    and e4: "e = 4 \<longrightarrow> r1 = 0 \<and> c \<le> 23"
    and n: "n - 1 = 146097 * a + 36524 * b + 1461 * c + 365 * e + r1"
    unfolding a_def r400_def b_def r100_def c_def r4_def e_def r1_def by blast+
  show ?thesis
  proof (cases "b = 4")
    case True
    then have z: "c = 0" "e = 0" "r1 = 0"
      using b4 by (simp_all add: c_def e_def r1_def r4_def)
    have yy: "y - 1 = 400 * a + 100 * 3 + 4 * 24 + 3 + 1"
      using True z by (simp add: y_def)
    have dby: "days_before_year (y - 1) = 146097 * a + 36524 * 3 + 1461 * 24 + 365 * 3"
      unfolding yy by (rule days_before_year_decomp) simp_all
    have "(0 + (a + 1) * 400) mod 400 = 0" by (intro mod_shift) simp_all
    then have "(y - 1) mod 400 = 0" using True z by (simp add: y_def algebra_simps)
    moreover have "(0 + (100 * a + 100) * 4) mod 4 = 0" by (intro mod_shift) simp_all
    then have "(y - 1) mod 4 = 0" using True z by (simp add: y_def algebra_simps)
    ultimately have leap: "is_leap (y - 1)" by (simp add: is_leap_def)
    have "ord2ymd n = (y - 1, 12, 31)" using True by (simp add: o)
    then have "ymd2ord (ord2ymd n) = days_before_year (y - 1) + 335 + 31"
      by (simp add: ymd2ord_def leap days_before_month_def)
    then show ?thesis
      using True n z dby by simp
  next
    case b3: False
    then have b3': "b \<le> 3" using bb by simp
    show ?thesis
    proof (cases "e = 4")
      case True
      then have z: "r1 = 0" "c \<le> 23" using e4 by simp_all
      have yy: "y - 1 = 400 * a + 100 * b + 4 * c + 3 + 1"
        using True by (simp add: y_def)
      have dby: "days_before_year (y - 1) = 146097 * a + 36524 * b + 1461 * c + 365 * 3"
        unfolding yy using bb b3' cb z by (intro days_before_year_decomp) simp_all
      have "((4 * c + 4) + (4 * a + b) * 100) mod 100 = 4 * c + 4"
        using cb z by (intro mod_shift) simp_all
      then have "(y - 1) mod 100 = 4 * c + 4" using True by (simp add: y_def algebra_simps)
      then have m100: "(y - 1) mod 100 \<noteq> 0" using cb by simp
      have "(0 + (100 * a + 25 * b + c + 1) * 4) mod 4 = 0" by (intro mod_shift) simp_all
      then have "(y - 1) mod 4 = 0" using True by (simp add: y_def algebra_simps)
      with m100 have leap: "is_leap (y - 1)" by (simp add: is_leap_def)
      have "ord2ymd n = (y - 1, 12, 31)" using True by (simp add: o)
      then have "ymd2ord (ord2ymd n) = days_before_year (y - 1) + 335 + 31"
        by (simp add: ymd2ord_def leap days_before_month_def)
      then show ?thesis
        using True n z dby by simp
    next
      case False
      then have e3: "e \<le> 3" using eb by simp
      have dby: "days_before_year y = 146097 * a + 36524 * b + 1461 * c + 365 * e"
        unfolding y_def using bb b3' cb eb e3 by (intro days_before_year_decomp) simp_all
      obtain m d where md: "month_day (is_leap y) r1 = (m, d)" by (cases "month_day (is_leap y) r1")
      have "ord2ymd n = (y, m, d)" using False b3 by (simp add: o md)
      then have "ymd2ord (ord2ymd n) = days_before_year y + days_before_month (is_leap y) m + d"
        by (simp add: ymd2ord_def)
      then show ?thesis
        using month_day_inverse [OF md] n dby by simp
    qed
  qed
qed

lemma civil_of_day_inj: "civil_of_day d1 = civil_of_day d2 \<Longrightarrow> d1 = d2"
proof -
  assume "civil_of_day d1 = civil_of_day d2"
  then have "ymd2ord (ord2ymd (d1 + 719163)) = ymd2ord (ord2ymd (d2 + 719163))"
    by (simp add: civil_of_day_def)
  then show ?thesis by (simp add: ymd2ord_ord2ymd)
qed

text \<open>In the range of a timestamp the year has four digits, the month and the day two.\<close>

lemma civil_of_day_range:
  assumes "timestamp_ok d" and "civil_of_day d = (y, m, dd)"
  shows "1600 \<le> y \<and> y \<le> 2600 \<and> 1 \<le> m \<and> m \<le> 12 \<and> 1 \<le> dd \<and> dd \<le> 31"
proof -
  define n where "n = d + 719163"
  define a where "a = (n - 1) div 146097"
  define r400 where "r400 = (n - 1) mod 146097"
  define b where "b = r400 div 36524"
  define r100 where "r100 = r400 mod 36524"
  define c where "c = r100 div 1461"
  define r4 where "r4 = r100 mod 1461"
  define e where "e = r4 div 365"
  define r1 where "r1 = r4 mod 365"
  define yy where "yy = 400 * a + 100 * b + 4 * c + e + 1"
  have o: "ord2ymd n = (if e = 4 \<or> b = 4 then (yy - 1, 12, 31)
                        else (case month_day (is_leap yy) r1 of (m, d) \<Rightarrow> (yy, m, d)))"
    by (simp add: ord2ymd_def Let_def a_def r400_def b_def r100_def c_def r4_def e_def r1_def yy_def)
  from ord2ymd_digits [of n]
  have bb: "0 \<le> b" "b \<le> 4" and cb: "0 \<le> c" "c \<le> 24" and eb: "0 \<le> e" "e \<le> 4"
    and rb: "0 \<le> r1" "r1 < 365"
    unfolding a_def r400_def b_def r100_def c_def r4_def e_def r1_def by blast+
  have "612411 \<le> n - 1" "n - 1 \<le> 825913"
    using assms(1) by (simp_all add: timestamp_ok_def n_def)
  moreover have "n - 1 = 146097 * a + r400" "0 \<le> r400" "r400 < 146097"
    by (simp_all add: a_def r400_def)
  ultimately have ab: "4 \<le> a" "a \<le> 5"
    by linarith+
  have yb: "1601 \<le> yy" "yy \<le> 2600"
    using ab bb cb eb by (simp_all add: yy_def)
  show ?thesis
  proof (cases "e = 4 \<or> b = 4")
    case True
    then have "(y, m, dd) = (yy - 1, 12, 31)"
      using assms(2) o by (simp add: civil_of_day_def n_def)
    then show ?thesis using yb by simp
  next
    case False
    obtain m' d' where md: "month_day (is_leap yy) r1 = (m', d')" by (cases "month_day (is_leap yy) r1")
    then have "(y, m, dd) = (yy, m', d')"
      using assms(2) o False by (simp add: civil_of_day_def n_def)
    with month_day_range [OF rb md] yb show ?thesis by simp
  qed
qed

lemma digit_is_digit: "is_digit (digit n)"
  by (simp add: digit_def is_digit_def Let_def)

lemma small_int_cases:
  fixes k :: int
  assumes "0 \<le> k" "k < 10"
  shows "k = 0 \<or> k = 1 \<or> k = 2 \<or> k = 3 \<or> k = 4 \<or> k = 5 \<or> k = 6 \<or> k = 7 \<or> k = 8 \<or> k = 9"
  using assms by presburger

lemma digit_value_digit: "digit_value (digit n) = n mod 10"
proof -
  have "0 \<le> n mod 10" "n mod 10 < 10" by simp_all
  from small_int_cases [OF this] show ?thesis
    by (elim disjE) (simp_all add: digit_def digit_value_def)
qed

lemma int_div_mod_eq:
  fixes x y :: int
  assumes "x div 10 = y div 10" "x mod 10 = y mod 10"
  shows "x = y"
proof -
  have "10 * (x div 10) + x mod 10 = 10 * (y div 10) + y mod 10"
    by (simp only: assms)
  then show ?thesis by (simp only: mult_div_mod_eq)
qed

lemma digit_eq_mod: "digit a = digit b \<Longrightarrow> a mod 10 = b mod 10"
proof -
  assume "digit a = digit b"
  then have "digit_value (digit a) = digit_value (digit b)" by (rule arg_cong)
  then show ?thesis by (simp only: digit_value_digit)
qed

lemma digit_eq_small:
  assumes "digit a = digit b" "0 \<le> a" "a < 10" "0 \<le> b" "b < 10"
  shows "a = b"
proof -
  have "a mod 10 = b mod 10" using assms(1) by (rule digit_eq_mod)
  moreover have "a mod 10 = a" "b mod 10 = b"
    using assms(2-5) by (simp_all only: mod_pos_pos_trivial)
  ultimately show ?thesis by simp
qed

lemma pad2_inj:
  assumes "pad2 a = pad2 b" "0 \<le> a" "a < 100" "0 \<le> b" "b < 100"
  shows "a = b"
proof -
  from assms(1) have d: "digit (a div 10) = digit (b div 10)" "digit a = digit b"
    by (simp_all add: pad2_def)
  have "0 \<le> a div 10" "a div 10 < 10" "0 \<le> b div 10" "b div 10 < 10"
    using assms(2-5) by simp_all
  with d(1) have "a div 10 = b div 10" by (rule digit_eq_small)
  then show ?thesis using digit_eq_mod [OF d(2)] by (rule int_div_mod_eq)
qed

lemma pad4_inj:
  assumes "pad4 a = pad4 b" "0 \<le> a" "a < 10000" "0 \<le> b" "b < 10000"
  shows "a = b"
proof -
  from assms(1) have d: "digit (a div 1000) = digit (b div 1000)"
    "digit (a div 100) = digit (b div 100)" "digit (a div 10) = digit (b div 10)"
    "digit a = digit b"
    by (simp_all add: pad4_def)
  have "0 \<le> a div 1000" "a div 1000 < 10" "0 \<le> b div 1000" "b div 1000 < 10"
    using assms(2-5) by simp_all
  with d(1) have h3: "a div 1000 = b div 1000" by (rule digit_eq_small)
  have s2: "a div 100 div 10 = a div 1000" "b div 100 div 10 = b div 1000"
    using zdiv_zmult2_eq [of 10 a 100] zdiv_zmult2_eq [of 10 b 100] by simp_all
  have s1: "a div 10 div 10 = a div 100" "b div 10 div 10 = b div 100"
    using zdiv_zmult2_eq [of 10 a 10] zdiv_zmult2_eq [of 10 b 10] by simp_all
  have "a div 100 div 10 = b div 100 div 10" by (simp only: s2 h3)
  then have h2: "a div 100 = b div 100" using digit_eq_mod [OF d(2)] by (rule int_div_mod_eq)
  have "a div 10 div 10 = b div 10 div 10" by (simp only: s1 h2)
  then have h1: "a div 10 = b div 10" using digit_eq_mod [OF d(3)] by (rule int_div_mod_eq)
  then show ?thesis using digit_eq_mod [OF d(4)] by (rule int_div_mod_eq)
qed

lemma isoformat_inj:
  assumes "isoformat d1 = isoformat d2" "timestamp_ok d1" "timestamp_ok d2"
  shows "d1 = d2"
proof -
  obtain y1 m1 e1 where c1: "civil_of_day d1 = (y1, m1, e1)" by (cases "civil_of_day d1")
  obtain y2 m2 e2 where c2: "civil_of_day d2 = (y2, m2, e2)" by (cases "civil_of_day d2")
  note r1 = civil_of_day_range [OF assms(2) c1] and r2 = civil_of_day_range [OF assms(3) c2]
  have s: "pad4 y1 @ ''-'' @ pad2 m1 @ ''-'' @ pad2 e1 = pad4 y2 @ ''-'' @ pad2 m2 @ ''-'' @ pad2 e2"
    using assms(1) by (simp add: isoformat_def c1 c2)
  have l: "length (pad4 y1) = length (pad4 y2)" "length (pad2 m1) = length (pad2 m2)"
    by (simp_all add: pad4_def pad2_def)
  from s l have "pad4 y1 = pad4 y2" "pad2 m1 = pad2 m2" "pad2 e1 = pad2 e2"
    by simp_all
  then have "y1 = y2" "m1 = m2" "e1 = e2"
    using r1 r2 by (auto intro: pad4_inj pad2_inj)
  then show ?thesis using c1 c2 civil_of_day_inj by simp
qed

lemma isoformat_shape:
  "iso_calendar_date (take 10 (isoformat d)) \<and> drop 10 (isoformat d) = ''T00:00:00''"
  by (cases "civil_of_day d")
     (simp add: isoformat_def pad4_def pad2_def iso_calendar_date_def digit_is_digit)

lemma isoformat_not_calendar_date: "\<not> iso_calendar_date (isoformat d)"
  by (cases "civil_of_day d") (simp add: isoformat_def pad4_def pad2_def iso_calendar_date_def)

lemma roll_forward_bounds: "d \<le> roll_forward d \<and> roll_forward d \<le> d + 2"
  by (simp add: roll_forward_def)

lemma roll_forward_business_day: "is_business_day (roll_forward d)"
proof -
  have "0 \<le> (d + 3) mod 7" "(d + 3) mod 7 < 7" by simp_all
  then show ?thesis
    unfolding roll_forward_def is_business_day_def weekday_def
    by presburger
qed

lemma length_bdate_range: "length (bdate_range start n) = n"
  by (induction n arbitrary: start) simp_all

lemma bdate_range_bounds:
  "d \<in> set (bdate_range start n) \<Longrightarrow> start \<le> d \<and> d < start + 3 * int n"
proof (induction n arbitrary: start)
  case 0
  then show ?case by simp
next
  case (Suc n)
  from Suc.prems consider "d = roll_forward start" | "d \<in> set (bdate_range (roll_forward start + 1) n)"
    by auto
  then show ?case
  proof cases
    case 1
    then show ?thesis using roll_forward_bounds [of start] by simp
  next
    case 2
    from Suc.IH [OF 2] roll_forward_bounds [of start] show ?thesis by simp
  qed
qed

lemma bdate_range_business_days:
  "d \<in> set (bdate_range start n) \<Longrightarrow> is_business_day d"
  by (induction n arbitrary: start) (auto simp: roll_forward_business_day)

lemma bdate_range_increasing: "sorted_wrt (<) (bdate_range start n)"
proof (induction n arbitrary: start)
  case 0
  then show ?case by simp
next
  case (Suc n)
  have "\<forall>d\<in>set (bdate_range (roll_forward start + 1) n). roll_forward start < d"
    using bdate_range_bounds by fastforce
  with Suc.IH show ?case by simp
qed

lemma update_fresh: "k \<notin> fst ` set al \<Longrightarrow> AList.update k v al = al @ [(k, v)]"
  by (induction al) auto

lemma to_dict_acc:
  "distinct (map fst kvs) \<Longrightarrow> fst ` set acc \<inter> fst ` set kvs = {} \<Longrightarrow>
   foldl (\<lambda>d (k, v). AList.update k v d) acc kvs = acc @ kvs"
proof (induction kvs arbitrary: acc)
  case Nil
  then show ?case by simp
next
  case (Cons kv kvs)
  obtain k v where kv: "kv = (k, v)" by (cases kv)
  have fresh: "k \<notin> fst ` set acc" using Cons.prems(2) kv by auto
  have "foldl (\<lambda>d (k, v). AList.update k v d) (acc @ [(k, v)]) kvs = (acc @ [(k, v)]) @ kvs"
    using Cons.prems kv by (intro Cons.IH) auto
  then show ?case by (simp add: kv update_fresh [OF fresh])
qed

lemma to_dict_distinct: "distinct (map fst kvs) \<Longrightarrow> to_dict kvs = kvs"
  using to_dict_acc [of kvs "[]"] by (simp add: to_dict_def)

lemma isoformat_distinct:
  assumes "sorted_wrt (<) ds" "\<forall>d\<in>set ds. timestamp_ok d"
  shows "distinct (map isoformat ds)"
proof -
  have "distinct ds" using assms(1) by (simp add: strict_sorted_iff)
  moreover have "inj_on isoformat (set ds)"
    using assms(2) by (auto intro!: inj_onI isoformat_inj)
  ultimately show ?thesis by (simp add: distinct_map)
qed

lemma bdate_range_timestamp_ok:
  assumes "- 106752 \<le> d0" "d0 + 3 * int n \<le> 106751" "d \<in> set (bdate_range (d0 + 1) n)"
  shows "timestamp_ok d"
  using bdate_range_bounds [OF assms(3)] assms(1,2) by (simp add: timestamp_ok_def)

text \<open>The forecast of a one-row frame, when every date is a valid timestamp.\<close>

lemma clean_prediction_one_row:
  assumes "- 106752 \<le> d0" "d0 + 3 * int (length cells) \<le> 106751" "cells \<noteq> []"
  shows "clean_prediction [(d0, cells)]
         = Inr (zip (map isoformat (bdate_range (d0 + 1) (length cells))) (map np_pow_half cells))"
proof -
  let ?ds = "bdate_range (d0 + 1) (length cells)"
  have ok: "\<forall>d\<in>set ?ds. timestamp_ok d"
    using bdate_range_timestamp_ok [OF assms(1,2)] by blast
  have "1 \<le> int (length cells)" using assms(3) by (cases cells) simp_all
  then have ok0: "timestamp_ok (d0 + 1)"
    unfolding timestamp_ok_def using assms(1,2) by linarith
  have dist: "distinct (map isoformat ?ds)"
    using bdate_range_increasing ok by (rule isoformat_distinct)
  have "distinct (map fst (zip (map isoformat ?ds) (map np_pow_half cells)))"
    using dist by (simp add: length_bdate_range)
  then have "to_dict (zip (map isoformat ?ds) (map np_pow_half cells))
             = zip (map isoformat ?ds) (map np_pow_half cells)"
    by (rule to_dict_distinct)
  then show ?thesis
    using ok ok0 by (simp add: clean_prediction_def length_bdate_range list_all_iff)
qed

text \<open>What \<open>predict_volatility\<close> returns when the estimator forecasts one row of \<open>H\<close>
  variances: the business days after the row's label, each with the root of the root of
  its variance.\<close>

lemma predict_volatility_one_row:
  assumes "model self = Some m"
    and "0 < H"
    and "forecast_variance m H = Inr [(d0, vs)]"
    and "length vs = nat H"
    and "- 106752 \<le> d0"
    and "d0 + 3 * H \<le> 106751"
  shows "predict_volatility self H
         = Inr (zip (map isoformat (bdate_range (d0 + 1) (nat H)))
                    (map (\<lambda>v. np_pow_half (np_pow_half v)) vs))"
proof -
  let ?cells = "map np_pow_half vs"
  have len: "length ?cells = nat H" using assms(4) by simp
  have hi: "d0 + 3 * int (length ?cells) \<le> 106751"
    using assms(2,6) len by simp
  have ne: "?cells \<noteq> []" using len assms(2) by auto
  show ?thesis
    using clean_prediction_one_row [OF assms(5) hi ne] len
    by (simp add: predict_volatility_def assms(1,3) frame_pow_half_def comp_def)
qed

lemma forecast_days_example:
  "map isoformat (bdate_range (19727 + 1) (nat 3))
   = [''2024-01-08T00:00:00'', ''2024-01-09T00:00:00'', ''2024-01-10T00:00:00'']"
proof -
  have "bdate_range (19727 + 1) (nat 3) = [19730, 19731, 19732]"
    by (simp add: numeral_3_eq_3 roll_forward_def weekday_def)
  then show ?thesis by (simp add: calendar_eval)
qed

text \<open>
  C4 (as stated). The keys are not calendar dates: \<open>Timestamp.isoformat()\<close> gives the date
  followed by the time of day, so the key of the first forecast day after Friday
  2024-01-05 is \<open>2024-01-08T00:00:00\<close>, which is not of the form \<open>YYYY-MM-DD\<close>.
\<close>

theorem predict_volatility_keys_counterexample:
  "predict_volatility session_T 1 = Inr [(''2024-01-08T00:00:00'', Fin 2)]
   \<and> \<not> iso_calendar_date ''2024-01-08T00:00:00''"
  by (simp add: session_T_def model_a_def GarchModel_init_def predict_eval calendar_eval
        sqrt_16 sqrt_4 iso_calendar_date_def)


text \<open>
  C4 (amended). When the estimator's variance forecast for a horizon \<open>H > 0\<close> is one row of
  \<open>H\<close> cells labelled with day \<open>d0\<close> (the last day of the fitted series), and the days
  involved are valid timestamps, \<open>predict_volatility\<close> returns exactly \<open>H\<close> entries with
  distinct keys; the keys are, in insertion order, the \<open>isoformat\<close> strings of strictly
  increasing days, each a business day (Monday to Friday) after \<open>d0\<close>; and each key is an
  ISO 8601 calendar date followed by \<open>T00:00:00\<close>.
\<close>

theorem predict_volatility_keys:
  assumes "model self = Some m"
    and "0 < H"
    and "forecast_variance m H = Inr [(d0, vs)]"
    and "length vs = nat H"
    and "- 106752 \<le> d0"
    and "d0 + 3 * H \<le> 106751"
  shows "\<exists>fs. predict_volatility self H = Inr fs
           \<and> length fs = nat H
           \<and> distinct (map fst fs)
           \<and> map fst fs = map isoformat (bdate_range (d0 + 1) (nat H))
           \<and> sorted_wrt (<) (bdate_range (d0 + 1) (nat H))
           \<and> (\<forall>d\<in>set (bdate_range (d0 + 1) (nat H)). is_business_day d \<and> d0 < d)
           \<and> (\<forall>k\<in>set (map fst fs). iso_calendar_date (take 10 k) \<and> drop 10 k = ''T00:00:00'')"
proof -
  let ?ds = "bdate_range (d0 + 1) (nat H)"
  let ?fs = "zip (map isoformat ?ds) (map (\<lambda>v. np_pow_half (np_pow_half v)) vs)"
  have p: "predict_volatility self H = Inr ?fs"
    using assms by (rule predict_volatility_one_row)
  have keys: "map fst ?fs = map isoformat ?ds"
    using assms(4) by (simp add: length_bdate_range)
  have ok: "\<forall>d\<in>set ?ds. timestamp_ok d"
    using bdate_range_timestamp_ok [OF assms(5), of "nat H"] assms(2,6) by simp
  have dist: "distinct (map isoformat ?ds)"
    using bdate_range_increasing ok by (rule isoformat_distinct)
  have bd: "\<forall>d\<in>set ?ds. is_business_day d \<and> d0 < d"
    using bdate_range_business_days bdate_range_bounds by fastforce
  have shape: "\<forall>k\<in>set (map isoformat ?ds). iso_calendar_date (take 10 k) \<and> drop 10 k = ''T00:00:00''"
    using isoformat_shape by auto
  have "length ?fs = nat H" using assms(4) by (simp add: length_bdate_range)
  with p keys dist bd shape bdate_range_increasing [of "d0 + 1" "nat H"]
  show ?thesis by (intro exI [of _ ?fs]) (simp only: simp_thms)
qed

theorem predict_volatility_keys_witness:
  "model session_T = Some model_a
   \<and> forecast_variance model_a 3 = Inr [(19727, [Fin 16, Fin 16, Fin 16])]
   \<and> (\<exists>fs. predict_volatility session_T 3 = Inr fs
          \<and> length fs = 3
          \<and> map fst fs = [''2024-01-08T00:00:00'', ''2024-01-09T00:00:00'', ''2024-01-10T00:00:00''])"
proof -
  have h1: "model session_T = Some model_a"
    by (simp add: session_T_def GarchModel_init_def)
  have h3: "forecast_variance model_a 3 = Inr [(19727, [Fin 16, Fin 16, Fin 16])]"
    by (simp add: model_a_def constant_forecast_def numeral_3_eq_3)
  have h4: "length [Fin 16, Fin 16, Fin 16 :: npfloat] = nat 3" by simp
  from predict_volatility_keys [OF h1 _ h3 h4]
  obtain fs where p: "predict_volatility session_T 3 = Inr fs"
    and l: "length fs = nat 3"
    and k: "map fst fs = map isoformat (bdate_range (19727 + 1) (nat 3))"
    by auto
  have l3: "length fs = 3" using l by simp
  have k3: "map fst fs = [''2024-01-08T00:00:00'', ''2024-01-09T00:00:00'', ''2024-01-10T00:00:00'']"
    using k by (simp only: forecast_days_example)
  show ?thesis
    by (intro conjI exI [of _ fs]) (fact h1 h3 p l3 k3)+
qed

text \<open>
  C1 (code defect). The forecast value of a step is to be the square root of the variance
  forecast of that step. Line 156 takes the square root of the variance frame and line 132
  takes the square root again, so the value returned is the fourth root: for a variance
  forecast of 16 the method returns 2, and the square root of 16 is 4.
\<close>

theorem predict_volatility_takes_root_twice:
  "forecast_variance model_a 1 = Inr [(19727, [Fin 16])]
   \<and> predict_volatility session_T 1 = Inr [(''2024-01-08T00:00:00'', Fin 2)]
   \<and> sqrt 16 = (4::real)"
  using predict_model_a by (simp add: model_a_def constant_forecast_def sqrt_16)

text \<open>
  C8 (code defect). Saving and reloading is to give back the saved estimator when no other
  save for the same instrument comes in between. Here the session for \<open>T\<close> saves, then a
  session for \<open>MSFT\<close> saves, then the session for \<open>T\<close> loads: the pattern without underscore
  matches both files, the later \<open>MSFT\<close> artifact sorts last, and the forecast after the
  reload (3) is not the forecast before the save (2).
\<close>

theorem dump_load_returns_other_model:
  "dump session_T [] ''2024-01-02T10:00:00.000001''
     = (Inr ''models/2024-01-02T10-00-00.000001_T.pkl'', session_T,
        [(''models/2024-01-02T10-00-00.000001_T.pkl'', Pickled model_a)])
   \<and> dump session_MSFT [(''models/2024-01-02T10-00-00.000001_T.pkl'', Pickled model_a)]
        ''2024-01-02T11:00:00.000001''
     = (Inr ''models/2024-01-02T11-00-00.000001_MSFT.pkl'', session_MSFT,
        [(''models/2024-01-02T10-00-00.000001_T.pkl'', Pickled model_a),
         (''models/2024-01-02T11-00-00.000001_MSFT.pkl'', Pickled model_b)])
   \<and> load session_T [(''models/2024-01-02T10-00-00.000001_T.pkl'', Pickled model_a),
         (''models/2024-01-02T11-00-00.000001_MSFT.pkl'', Pickled model_b)]
     = (Inr (), session_T\<lparr>model := Some model_b\<rparr>)
   \<and> predict_volatility session_T 1 = Inr [(''2024-01-08T00:00:00'', Fin 2)]
   \<and> predict_volatility (session_T\<lparr>model := Some model_b\<rparr>) 1 = Inr [(''2024-01-08T00:00:00'', Fin 3)]"
proof -
  have d1: "dump session_T [] ''2024-01-02T10:00:00.000001''
     = (Inr ''models/2024-01-02T10-00-00.000001_T.pkl'', session_T,
        [(''models/2024-01-02T10-00-00.000001_T.pkl'', Pickled model_a)])"
    by (simp add: dump_def session_T_def GarchModel_init_def replace_colons_def os_path_join_def
          joblib_dump_def Let_def)
  have d2: "dump session_MSFT [(''models/2024-01-02T10-00-00.000001_T.pkl'', Pickled model_a)]
        ''2024-01-02T11:00:00.000001''
     = (Inr ''models/2024-01-02T11-00-00.000001_MSFT.pkl'', session_MSFT,
        [(''models/2024-01-02T10-00-00.000001_T.pkl'', Pickled model_a),
         (''models/2024-01-02T11-00-00.000001_MSFT.pkl'', Pickled model_b)])"
    by (simp add: dump_def session_MSFT_def GarchModel_init_def replace_colons_def os_path_join_def
          joblib_dump_def Let_def)
  have g: "glob (model_directory session_T) (load_pattern (ticker session_T))
        [(''models/2024-01-02T10-00-00.000001_T.pkl'', Pickled model_a),
         (''models/2024-01-02T11-00-00.000001_MSFT.pkl'', Pickled model_b)] =
      [''models/2024-01-02T10-00-00.000001_T.pkl'', ''models/2024-01-02T11-00-00.000001_MSFT.pkl'']"
    by (simp add: session_T_def GarchModel_init_def load_pattern_def glob_eval)
  have l: "load session_T [(''models/2024-01-02T10-00-00.000001_T.pkl'', Pickled model_a),
         (''models/2024-01-02T11-00-00.000001_MSFT.pkl'', Pickled model_b)]
     = (Inr (), session_T\<lparr>model := Some model_b\<rparr>)"
    by (simp add: load_def g py_last_def joblib_load_def)
  from d1 d2 l predict_model_a predict_model_b show ?thesis by simp
qed

end
